theory Spec2Isabelle
  imports Main "HOL-Library.Word" "HOL-Library.Sublist"
begin

unbundle bit_operations_syntax

section \<open>drawing/common.go: key generation\<close>

text \<open>
  \<^verbatim>\<open>Random\<close> fills a four byte slice from crypto/rand and combines the first byte
  four times; on a read error or a short read it returns 0. The outcome of the
  read is the input of the model.
\<close>

record rand_read =
  rr_buf :: "8 word list"
  rr_n :: int
  rr_err :: bool

definition Random :: "rand_read \<Rightarrow> 32 word" where
  "Random r =
     (if rr_err r \<or> rr_n r \<noteq> 4 then 0
      else push_bit 24 (ucast (rr_buf r ! 0)) OR push_bit 16 (ucast (rr_buf r ! 0))
           OR push_bit 8 (ucast (rr_buf r ! 0)) OR push_bit 0 (ucast (rr_buf r ! 0)))"

definition letters :: string where
  "letters = ''ABCDEFGHIJKLMNOPQRST''"

text \<open>
  One draw is the pair of the crypto/rand read behind \<^verbatim>\<open>Random()\<close> and the value of
  \<^verbatim>\<open>math.Uint32()\<close>. The draws of one call are numbered from 0 in the order the
  source makes them.
\<close>

type_synonym draws = "nat \<Rightarrow> rand_read \<times> 32 word"

definition pick :: "rand_read \<times> 32 word \<Rightarrow> char" where
  "pick d = letters ! unat ((Random (fst d) XOR snd d) mod of_nat (length letters))"

text \<open>The inner loop: \<^verbatim>\<open>for i := 0; i < 64; i++ { key[i] = letters[...] }\<close>.\<close>

definition fill :: "draws \<Rightarrow> nat \<Rightarrow> char list \<Rightarrow> char list" where
  "fill draw c key = fold (\<lambda>i k. k[i := pick (draw (c + i))]) [0..<64] key"

text \<open>
  The outer loop runs the inner loop at most \<open>m\<close> times and leaves as soon as
  \<^verbatim>\<open>key[3] == 'A'\<close>; \<open>c\<close> counts the draws made so far.
\<close>

fun rounds :: "nat \<Rightarrow> draws \<Rightarrow> nat \<Rightarrow> char list \<Rightarrow> char list" where
  "rounds 0 draw c key = key"
| "rounds (Suc m) draw c key =
     (let key' = fill draw c key
      in if key' ! 3 = CHR ''A'' then key' else rounds m draw (c + 64) key')"

datatype panic = NilDereference

text \<open>
  \<^verbatim>\<open>x, _ := os.Stat(os.Args[0])\<close> drops the error, so \<open>x\<close> is nil when the stat fails
  and \<^verbatim>\<open>x.ModTime()\<close> panics. The argument \<open>x\<close> is the modification time when the
  stat succeeded. The seed only selects the sequence \<^verbatim>\<open>math.Uint32()\<close> returns, which
  is part of \<open>draw\<close>.
\<close>

definition GenerateUniqueKey :: "int option \<Rightarrow> draws \<Rightarrow> panic + string" where
  "GenerateUniqueKey x draw =
     (case x of
        None \<Rightarrow> Inl NilDereference
      | Some modTime \<Rightarrow>
          (let key = rounds 1000 draw 0 (replicate 64 (CHR 0x00))
           in Inr (key[4 := CHR ''B''])))"

section \<open>Requests, responses and Go maps\<close>

text \<open>
  What the handlers read of an \<^verbatim>\<open>*http.Request\<close>: the method, \<^verbatim>\<open>r.URL.String()\<close>, the
  headers and the query parameters (each name with its first value), and the body
  with the outcome of reading it.
\<close>

record request =
  Method :: string
  URL :: string
  Header :: "string \<rightharpoonup> string"
  Query :: "string \<rightharpoonup> string"
  Body :: string
  BodyReadFails :: bool

text \<open>
  Indexing a \<^verbatim>\<open>map[string]string\<close> with a missing key gives the empty string, and so
  do \<^verbatim>\<open>Header.Get\<close> and \<^verbatim>\<open>Query().Get\<close> for a missing name.
\<close>

definition lookup :: "(string \<rightharpoonup> string) \<Rightarrow> string \<Rightarrow> string" where
  "lookup m k = (case m k of None \<Rightarrow> '''' | Some v \<Rightarrow> v)"

text \<open>
  \<^verbatim>\<open>drawing.NoErrorBytes(io.ReadAll(r.Body))\<close> and \<^verbatim>\<open>drawing.NoErrorString\<close>: the bytes
  read, or nothing when the read returned an error.
\<close>

definition NoErrorString :: "request \<Rightarrow> string" where
  "NoErrorString r = (if BodyReadFails r then '''' else Body r)"

text \<open>
  \<^verbatim>\<open>englang.Scanf\<close> and \<^verbatim>\<open>englang.Scanf1\<close> are called with a text, a format and
  pointers to string variables that start empty. Their package is not among the
  sources, so every function that calls them takes the scanner as an argument:
  \<open>None\<close> is an error return, \<open>Some vs\<close> is a nil return after which the i-th
  variable holds \<open>arg vs i\<close>.
\<close>

type_synonym scanner = "string \<Rightarrow> string \<Rightarrow> string list option"

type_synonym printer = "string \<Rightarrow> string list \<Rightarrow> string"

definition arg :: "string list \<Rightarrow> nat \<Rightarrow> string" where
  "arg vs i = (if i < length vs then vs ! i else '''')"

section \<open>mesh: node registry, key index and proxy\<close>

record mesh_state =
  Nodes :: "string \<rightharpoonup> string"
  Index :: "string \<rightharpoonup> string"

definition eviction_notice :: string where
  "eviction_notice = ''This node got an eviction notice.''"

text \<open>The calls a handler makes to the propagation and authorization collaborators.\<close>

datatype effect =
  QuantumGradeAuthorization
| ForwardRoundRobinRingRequest request
| NewRoundRobinCall string string string

record node_result =
  n_status :: nat
  n_state :: mesh_state
  n_effects :: "effect list"

text \<open>
  The handler of \<^verbatim>\<open>/node\<close>. \<open>EnsureAdministrator\<close> gives the admin key, or \<open>None\<close>
  for its error; \<open>order\<close> is the order in which \<^verbatim>\<open>range Nodes\<close> visits the keys,
  which Go leaves open. A response whose header is never written has status 200.
\<close>

definition Setup_node ::
  "(request \<Rightarrow> string option) \<Rightarrow> string list \<Rightarrow> mesh_state \<Rightarrow> request \<Rightarrow> node_result" where
  "Setup_node EnsureAdministrator order st r =
     (case EnsureAdministrator r of
        None \<Rightarrow>
          \<lparr>n_status = 401, n_state = st, n_effects = [QuantumGradeAuthorization]\<rparr>
      | Some adminKey \<Rightarrow>
          (let address = NoErrorString r in
           if address = '''' then
             \<lparr>n_status = 204, n_state = st, n_effects = [QuantumGradeAuthorization]\<rparr>
           else if Method r = ''PUT'' then
             (if lookup (Nodes st) address \<noteq> '''' then
                \<lparr>n_status = 200, n_state = st,
                 n_effects = [QuantumGradeAuthorization, ForwardRoundRobinRingRequest r]\<rparr>
              else
                (let nodes = (Nodes st)(address \<mapsto> address) in
                 \<lparr>n_status = 200, n_state = st\<lparr>Nodes := nodes\<rparr>,
                  n_effects =
                    [QuantumGradeAuthorization, ForwardRoundRobinRingRequest r] @
                    map (\<lambda>node. NewRoundRobinCall (node @ ''/node?apikey='' @ adminKey)
                                   ''PUT'' address)
                      (filter (\<lambda>node. case nodes node of
                                          None \<Rightarrow> False
                                        | Some status \<Rightarrow> status \<noteq> eviction_notice) order)\<rparr>))
           else if Method r = ''DELETE'' then
             (if lookup (Nodes st) address = '''' then
                \<lparr>n_status = 404, n_state = st,
                 n_effects = [QuantumGradeAuthorization, ForwardRoundRobinRingRequest r]\<rparr>
              else if lookup (Nodes st) address = eviction_notice then
                \<lparr>n_status = 200, n_state = st,
                 n_effects = [QuantumGradeAuthorization, ForwardRoundRobinRingRequest r]\<rparr>
              else
                \<lparr>n_status = 200,
                 n_state = st\<lparr>Nodes := (Nodes st)(address \<mapsto> eviction_notice)\<rparr>,
                 n_effects = [QuantumGradeAuthorization, ForwardRoundRobinRingRequest r,
                              ForwardRoundRobinRingRequest r]\<rparr>)
           else
             \<lparr>n_status = 200, n_state = st,
              n_effects = [QuantumGradeAuthorization, ForwardRoundRobinRingRequest r]\<rparr>))"

definition findServerOfApiKey :: "mesh_state \<Rightarrow> string \<Rightarrow> string" where
  "findServerOfApiKey st apiKey = lookup (Index st) apiKey"

text \<open>
  \<^verbatim>\<open>strings.Replace(s, old, new, 1)\<close>: the first occurrence of \<open>old\<close> is replaced; an
  empty \<open>old\<close> matches at the start of \<open>s\<close>.
\<close>

fun Replace1 :: "string \<Rightarrow> string \<Rightarrow> string \<Rightarrow> string" where
  "Replace1 [] old new = (if old = [] then new else [])"
| "Replace1 (c # cs) old new =
     (if prefix old (c # cs) then new @ drop (length old) (c # cs)
      else c # Replace1 cs old new)"

record proxy_result =
  p_status :: nat
  p_body :: string
  p_forward :: "(string \<times> string \<times> string) option"
  p_error :: bool

definition not_found :: "nat \<Rightarrow> proxy_result" where
  "not_found code = \<lparr>p_status = code, p_body = '''', p_forward = None, p_error = True\<rparr>"

text \<open>
  \<^verbatim>\<open>Proxy\<close>. \<open>Synonym\<close> is \<^verbatim>\<open>englang.Synonym\<close> and \<open>HttpProxyRequest\<close> gives the bytes
  \<^verbatim>\<open>management.HttpProxyRequest\<close> returns; \<open>p_forward\<close> records the one call to it,
  with the rewritten URL, the method and the body handed over.
\<close>

definition Proxy ::
  "(string \<Rightarrow> string \<Rightarrow> bool) \<Rightarrow> (string \<Rightarrow> string \<Rightarrow> string \<Rightarrow> string) \<Rightarrow> string \<Rightarrow>
   mesh_state \<Rightarrow> request \<Rightarrow> proxy_result" where
  "Proxy Synonym HttpProxyRequest SiteUrl st r =
     (let apiKey = lookup (Header r) ''apikey'' in
      if apiKey = '''' then not_found 404
      else
        (let server = findServerOfApiKey st apiKey in
         if server = '''' then not_found 404
         else if Synonym (lookup (Nodes st) server) eviction_notice then not_found 410
         else
           (let server' =
                  (if prefix ''http://'' SiteUrl \<and> \<not> prefix ''http://'' server
                   then ''http://'' @ server
                   else if prefix ''https://'' SiteUrl \<and> \<not> prefix ''https://'' server
                   then ''https://'' @ server
                   else server);
                original = URL r;
                modified = Replace1 original SiteUrl server'
            in if modified = original then not_found 404
               else \<lparr>p_status = 200,
                     p_body = HttpProxyRequest modified (Method r) (Body r),
                     p_forward = Some (modified, Method r, Body r),
                     p_error = False\<rparr>)))"

text \<open>
  The \<^verbatim>\<open>io.Reader\<close> handed to \<^verbatim>\<open>UpdateIndex\<close>: the bytes of the stream, the number of
  bytes after which \<^verbatim>\<open>Read\<close> returns an error other than \<^verbatim>\<open>io.EOF\<close> (if it does), and
  whether the call that delivers the last bytes also returns the error that ends
  the stream (\<^verbatim>\<open>io.EOF\<close> included), as a reader may.
\<close>

record reader =
  rd_stream :: string
  rd_fails_at :: "nat option"
  rd_end_with_data :: bool

definition delivered_bytes :: "reader \<Rightarrow> string" where
  "delivered_bytes r = (case rd_fails_at r of None \<Rightarrow> rd_stream r | Some n \<Rightarrow> take n (rd_stream r))"

definition MaxScanTokenSize :: nat where
  "MaxScanTokenSize = 64 * 1024"

definition dropCR :: "string \<Rightarrow> string" where
  "dropCR data = (if data \<noteq> [] \<and> last data = CHR 0x0D then butlast data else data)"

text \<open>
  The tokens \<^verbatim>\<open>bufio.Scanner\<close> yields with its default buffer and \<^verbatim>\<open>ScanLines\<close>, that
  is the values of \<^verbatim>\<open>scanner.Text()\<close> for the calls of \<^verbatim>\<open>scanner.Scan()\<close> that return
  true. \<open>pending\<close> holds the bytes of the line under way, last byte first. A line
  is yielded when its newline is in the buffer, which holds at most
  \<open>MaxScanTokenSize\<close> bytes; when the buffer is full and has no newline,
  \<^verbatim>\<open>Scan\<close> sets \<^verbatim>\<open>ErrTooLong\<close> and returns false from then on. Any read error ends the
  input like \<^verbatim>\<open>io.EOF\<close>: the bytes left are yielded as a last line. A last line
  that fills the buffer is yielded only when the error came with its last bytes.
  \<^verbatim>\<open>UpdateIndex\<close> never reads \<^verbatim>\<open>scanner.Err()\<close>.
\<close>

fun Scan :: "bool \<Rightarrow> string \<Rightarrow> string \<Rightarrow> string list" where
  "Scan with_data pending [] =
     (if pending = [] then []
      else if length pending < MaxScanTokenSize \<or>
              (length pending = MaxScanTokenSize \<and> with_data)
      then [dropCR (rev pending)]
      else [])"
| "Scan with_data pending (c # cs) =
     (if c = CHR 0x0A then
        (if length pending < MaxScanTokenSize
         then dropCR (rev pending) # Scan with_data [] cs
         else [])
      else Scan with_data (c # pending) cs)"

definition Scanner_Text :: "reader \<Rightarrow> string list" where
  "Scanner_Text r = Scan (rd_end_with_data r) [] (delivered_bytes r)"

text \<open>
  The loop of \<^verbatim>\<open>UpdateIndex\<close> over the lines the scanner yields. It fills a fresh
  map, which then replaces \<^verbatim>\<open>Index\<close>.
\<close>

fun UpdateIndex_loop ::
  "scanner \<Rightarrow> string \<Rightarrow> string list \<Rightarrow> (string \<rightharpoonup> string) \<Rightarrow> (string \<rightharpoonup> string)" where
  "UpdateIndex_loop Scanf MeshPattern [] index = index"
| "UpdateIndex_loop Scanf MeshPattern (line # lines) index =
     (case Scanf line MeshPattern of
        None \<Rightarrow> UpdateIndex_loop Scanf MeshPattern lines index
      | Some vs \<Rightarrow> UpdateIndex_loop Scanf MeshPattern lines (index(arg vs 0 \<mapsto> arg vs 1)))"

definition UpdateIndex :: "scanner \<Rightarrow> string \<Rightarrow> reader \<Rightarrow> mesh_state \<Rightarrow> mesh_state" where
  "UpdateIndex Scanf MeshPattern r st =
     st\<lparr>Index := UpdateIndex_loop Scanf MeshPattern (Scanner_Text r) Map.empty\<rparr>"

text \<open>
  The lines of a stream as the claim about \<^verbatim>\<open>UpdateIndex\<close> speaks of them: the
  pieces between newlines, and the piece after the last newline when it is not
  empty; \<open>stream_lines\<close> gives them without a carriage return at the end. The
  entries a list of lines carries are the pairs of key and server of the lines the
  scanner of sentences accepts, in the order of the lines.
\<close>

fun raw_lines :: "string \<Rightarrow> string \<Rightarrow> string list" where
  "raw_lines pending [] = (if pending = [] then [] else [rev pending])"
| "raw_lines pending (c # cs) =
     (if c = CHR 0x0A then rev pending # raw_lines [] cs else raw_lines (c # pending) cs)"

definition stream_lines :: "string \<Rightarrow> string list" where
  "stream_lines s = map dropCR (raw_lines [] s)"

definition parsed_entries :: "scanner \<Rightarrow> string \<Rightarrow> string list \<Rightarrow> (string \<times> string) list" where
  "parsed_entries Scanf MeshPattern lines =
     List.map_filter (\<lambda>line. map_option (\<lambda>vs. (arg vs 0, arg vs 1)) (Scanf line MeshPattern))
       lines"

section \<open>burst: the session gated /run handler\<close>

record burst_state =
  BurstSession :: "string \<rightharpoonup> string"
  ContainerRunning :: "string \<rightharpoonup> string"
  ContainerResults :: "string \<rightharpoonup> nat"
  firstRun :: bool

text \<open>
  A \<^verbatim>\<open>time.Duration\<close> is a signed 64 bit count of nanoseconds whose sum wraps;
  \<^verbatim>\<open>time.After(d)\<close> fires after \<open>d\<close> nanoseconds, at once when \<open>d\<close> is not positive.
\<close>

definition After :: "64 word \<Rightarrow> int" where
  "After d = max 0 (sint d)"

datatype 'a chosen = TimedOut | Communicated 'a

text \<open>
  \<^verbatim>\<open>select { case <-time.After(d): ...; case <channel operation>: ... }\<close>. The peer of
  the channel operation is ready after \<open>t\<close> nanoseconds and then exchanges \<open>v\<close>, or
  is never ready (\<open>None\<close>). The result is the time spent in the select and the case
  taken; when both cases are ready at the same instant Go chooses either, which
  \<open>tie\<close> decides.
\<close>

definition select_after :: "64 word \<Rightarrow> (int \<times> 'a) option \<Rightarrow> bool \<Rightarrow> int \<times> 'a chosen" where
  "select_after d peer tie =
     (case peer of
        None \<Rightarrow> (After d, TimedOut)
      | Some (t, v) \<Rightarrow>
          if max 0 t < After d \<or> (max 0 t = After d \<and> tie) then (max 0 t, Communicated v)
          else (After d, TimedOut))"

text \<open>
  The other side of one \<^verbatim>\<open>/run\<close> request: when a worker in the \<^verbatim>\<open>/idle\<close> handler
  receives from the shared channel \<^verbatim>\<open>code\<close>, when it then receives the input from
  the reply channel, and when and what a later \<^verbatim>\<open>PUT /idle\<close> sends on it.
\<close>

record run_env =
  takes_channel :: "int option"
  takes_input :: "int option"
  posts_output :: "(int \<times> string) option"
  tie1 :: bool
  tie2 :: bool
  tie3 :: bool

datatype chan_event = SendOnCode | SendInput string | ReceiveOutput

record run_result =
  r_status :: nat
  r_body :: string
  r_collaborators :: "effect list"
  r_channel :: "chan_event list"
  r_elapsed :: int
  r_state :: burst_state

text \<open>
  The handler of \<^verbatim>\<open>/run\<close> in \<^verbatim>\<open>burst.Setup\<close>. The reply channel is made in the
  handler, so nothing can meet the handler on it unless a worker took it from
  \<^verbatim>\<open>code\<close>, and nothing can send on it before the worker that took it has the input.
  \<open>r_channel\<close> lists the channel operations the handler offers, \<open>r_elapsed\<close> is the
  time it spends in its three selects.
\<close>

definition Setup_run :: "64 word \<Rightarrow> burst_state \<Rightarrow> request \<Rightarrow> run_env \<Rightarrow> run_result" where
  "Setup_run MaxBurstRuntime st request env =
     (let apiKey = lookup (Query request) ''apikey'' in
      case BurstSession st apiKey of
        None \<Rightarrow>
          \<lparr>r_status = 402, r_body = ''Payment required with a PUT to /run.coin'',
           r_collaborators = [QuantumGradeAuthorization], r_channel = [],
           r_elapsed = 0, r_state = st\<rparr>
      | Some session \<Rightarrow>
          (let input = NoErrorString request;
               (t1, c1) = select_after MaxBurstRuntime
                            (map_option (\<lambda>t. (t, ())) (takes_channel env)) (tie1 env);
               (t2, c2) = select_after MaxBurstRuntime
                            (if c1 = TimedOut then None
                             else map_option (\<lambda>t. (t, ())) (takes_input env)) (tie2 env);
               (t3, c3) = select_after (MaxBurstRuntime + MaxBurstRuntime)
                            (if c1 = TimedOut \<or> c2 = TimedOut then None
                             else posts_output env) (tie3 env)
           in \<lparr>r_status = 200,
               r_body = (case c3 of TimedOut \<Rightarrow> '''' | Communicated output \<Rightarrow> output),
               r_collaborators = [],
               r_channel = [SendOnCode, SendInput input, ReceiveOutput],
               r_elapsed = t1 + t2 + t3, r_state = st\<rparr>))"

section \<open>burst: the datagram receiver\<close>

definition IsMessageComplete :: "scanner \<Rightarrow> string \<Rightarrow> bool" where
  "IsMessageComplete Scanf1 s =
     (Scanf1 s ''Message has started.%sMessage has finished.'' \<noteq> None)"

text \<open>
  One turn of \<^verbatim>\<open>conn.ReadFromUDP(buffer)\<close> on the 1024 byte buffer: a failed read, or
  a datagram with its sender and with whether a reply written back to it goes
  through.
\<close>

datatype udp_read = ReadFails | Datagram string string bool

record receiver =
  message :: string
  handled :: "string list"
  written :: "(string \<times> string) list"
  stopped :: bool

text \<open>
  The loop of \<^verbatim>\<open>acceptMessage\<close> over the reads it is given; when they are used up
  the receiver waits in the next read. \<open>handled\<close> lists the arguments of the
  handler calls, \<open>written\<close> the replies passed to \<^verbatim>\<open>WriteToUDP\<close>, both oldest first.
\<close>

fun acceptMessage_loop ::
  "scanner \<Rightarrow> (string \<Rightarrow> string) \<Rightarrow> udp_read list \<Rightarrow> receiver \<Rightarrow> receiver" where
  "acceptMessage_loop Scanf1 handler [] rc = rc"
| "acceptMessage_loop Scanf1 handler (ReadFails # reads) rc = rc\<lparr>stopped := True\<rparr>"
| "acceptMessage_loop Scanf1 handler (Datagram bytes addr delivered # reads) rc =
     (let data = take 1024 bytes;
          msg = message rc @ data
      in if IsMessageComplete Scanf1 msg then
           (let reply = handler msg;
                rc' = rc\<lparr>message := '''', handled := handled rc @ [msg]\<rparr>
            in if reply \<noteq> '''' then
                 (if delivered then
                    acceptMessage_loop Scanf1 handler reads
                      (rc'\<lparr>written := written rc' @ [(reply, addr)]\<rparr>)
                  else rc'\<lparr>written := written rc' @ [(reply, addr)], stopped := True\<rparr>)
               else acceptMessage_loop Scanf1 handler reads rc')
         else acceptMessage_loop Scanf1 handler reads (rc\<lparr>message := msg\<rparr>))"

definition acceptMessage :: "scanner \<Rightarrow> (string \<Rightarrow> string) \<Rightarrow> udp_read list \<Rightarrow> receiver" where
  "acceptMessage Scanf1 handler reads =
     acceptMessage_loop Scanf1 handler reads
       \<lparr>message = '''', handled = [], written = [], stopped = False\<rparr>"

text \<open>
  The bytes a sequence of reads has delivered to the loop: of every datagram the
  part that fits the 1024 byte buffer, in the order of arrival.
\<close>

fun received :: "udp_read list \<Rightarrow> string" where
  "received [] = []"
| "received (ReadFails # reads) = received reads"
| "received (Datagram bytes addr delivered # reads) = take 1024 bytes @ received reads"

section \<open>burst: the container table\<close>

type_synonym table = "string \<rightharpoonup> string"

text \<open>
  \<^verbatim>\<open>StartBurst\<close>; \<open>order\<close> is the order in which \<^verbatim>\<open>range Container\<close> visits the keys.
  The result is the returned key and the table afterwards.
\<close>

fun StartBurst_loop ::
  "scanner \<Rightarrow> printer \<Rightarrow> string list \<Rightarrow> string \<Rightarrow> table \<Rightarrow> string \<times> table" where
  "StartBurst_loop Scanf1 Printf [] code Container = ('''', Container)"
| "StartBurst_loop Scanf1 Printf (containerKey # order) code Container =
     (case Container containerKey of
        None \<Rightarrow> StartBurst_loop Scanf1 Printf order code Container
      | Some containerContent \<Rightarrow>
          (case Scanf1 containerContent ''Burst container has key %s and it is running %s.'' of
             None \<Rightarrow> StartBurst_loop Scanf1 Printf order code Container
           | Some vs \<Rightarrow>
               if arg vs 1 = ''idle'' then
                 (containerKey,
                  Container(containerKey \<mapsto>
                    Printf ''Burst container has key %s and it is running %s.Run this.%s''
                      [containerKey, ''code'', code]))
               else StartBurst_loop Scanf1 Printf order code Container))"

definition StartBurst ::
  "scanner \<Rightarrow> printer \<Rightarrow> string list \<Rightarrow> string \<Rightarrow> table \<Rightarrow> string \<times> table" where
  "StartBurst Scanf1 Printf order code Container =
     StartBurst_loop Scanf1 Printf order code Container"

definition GetBurst :: "scanner \<Rightarrow> printer \<Rightarrow> string \<Rightarrow> table \<Rightarrow> string \<times> table" where
  "GetBurst Scanf1 Printf key Container =
     (case Container key of
        None \<Rightarrow> ('''', Container)
      | Some content \<Rightarrow>
          (case Scanf1 (content @ ''DFFSSFFGGG'')
                  (''Burst container has key %s and it is finished with the following result %s''
                     @ ''DFFSSFFGGG'') of
             None \<Rightarrow> ('''', Container)
           | Some vs \<Rightarrow>
               (arg vs 1,
                Container(arg vs 0 \<mapsto>
                  Printf ''Burst container has key %s and it is running %s.''
                    [arg vs 0, ''idle'']))))"

text \<open>
  \<^verbatim>\<open>RunBurst\<close> polls \<^verbatim>\<open>GetBurst\<close> up to 15 times. The lock is free between the calls,
  so \<open>others i\<close> is what the rest of the process does to the table before poll \<open>i\<close>.
  The result is the pair the source returns and the table afterwards.
\<close>

fun RunBurst_poll ::
  "scanner \<Rightarrow> printer \<Rightarrow> nat \<Rightarrow> nat \<Rightarrow> (nat \<Rightarrow> table \<Rightarrow> table) \<Rightarrow> string \<Rightarrow> table \<Rightarrow>
   (string \<times> string) \<times> table" where
  "RunBurst_poll Scanf1 Printf 0 i others containerKey Container =
     ((containerKey, ''''), Container)"
| "RunBurst_poll Scanf1 Printf (Suc n) i others containerKey Container =
     (let (result, Container') = GetBurst Scanf1 Printf containerKey (others i Container)
      in if result \<noteq> '''' then ((containerKey, result), Container')
         else RunBurst_poll Scanf1 Printf n (Suc i) others containerKey Container')"

definition RunBurst ::
  "scanner \<Rightarrow> printer \<Rightarrow> string list \<Rightarrow> (nat \<Rightarrow> table \<Rightarrow> table) \<Rightarrow> string \<Rightarrow> table \<Rightarrow>
   (string \<times> string) \<times> table" where
  "RunBurst Scanf1 Printf order others code Container =
     (let (containerKey, Container') = StartBurst Scanf1 Printf order code Container
      in if containerKey = '''' then ((''The system is busy. Please reload.'', ''''), Container')
         else RunBurst_poll Scanf1 Printf 15 0 others containerKey Container')"

text \<open>
  The handler of \<^verbatim>\<open>/run\<close> in \<^verbatim>\<open>SetupBurstLambdaEndpoint\<close>: the body it writes and the
  table afterwards; \<open>later\<close> is what the rest of the process does to the table
  during the three second sleep.
\<close>

definition SetupBurstLambdaEndpoint_run ::
  "scanner \<Rightarrow> printer \<Rightarrow> string list \<Rightarrow> (nat \<Rightarrow> table \<Rightarrow> table) \<Rightarrow> (table \<Rightarrow> table) \<Rightarrow>
   request \<Rightarrow> table \<Rightarrow> string \<times> table" where
  "SetupBurstLambdaEndpoint_run Scanf1 Printf order others later request Container =
     (let input = NoErrorString request;
          ((deferredKey, output), Container') =
             RunBurst Scanf1 Printf order others input Container
      in if deferredKey \<noteq> '''' \<and> output = '''' then
           GetBurst Scanf1 Printf deferredKey (later Container')
         else (output, Container'))"

section \<open>englang: a print and parse pair for sample runs\<close>

text \<open>
  Modelled from the spec: the package \<^verbatim>\<open>englang\<close> (\<^verbatim>\<open>Printf\<close>, \<^verbatim>\<open>Scanf\<close>, \<^verbatim>\<open>Scanf1\<close>,
  \<^verbatim>\<open>Synonym\<close>) is missing from the sources. The spec calls it a templated print and
  parse pair that encodes state as sentences: a value is printed at each \<^verbatim>\<open>%s\<close> of
  the template, and a text matches a template when it starts with the template's
  first literal piece and each later piece occurs in turn, the values being what
  lies between. The theorems below hold for every scanner and printer; this pair
  only serves to run the functions on sample inputs.
\<close>

fun pieces :: "string \<Rightarrow> string \<Rightarrow> string list" where
  "pieces acc [] = [rev acc]"
| "pieces acc (c # cs) =
     (if c = CHR ''%'' \<and> prefix ''s'' cs then rev acc # pieces [] (tl cs)
      else pieces (c # acc) cs)"

fun cut :: "string \<Rightarrow> string \<Rightarrow> (string \<times> string) option" where
  "cut piece [] = (if piece = [] then Some ([], []) else None)"
| "cut piece (c # cs) =
     (if prefix piece (c # cs) then Some ([], drop (length piece) (c # cs))
      else map_option (\<lambda>(v, rest). (c # v, rest)) (cut piece cs))"

fun scan_pieces :: "string list \<Rightarrow> string \<Rightarrow> string list option" where
  "scan_pieces [] s = Some []"
| "scan_pieces (piece # ps) s =
     (case cut piece s of
        None \<Rightarrow> None
      | Some (v, rest) \<Rightarrow> map_option ((#) v) (scan_pieces ps rest))"

definition sample_Scanf1 :: scanner where
  "sample_Scanf1 s format =
     (case pieces [] format of
        [] \<Rightarrow> None
      | p # ps \<Rightarrow> if prefix p s then scan_pieces ps (drop (length p) s) else None)"

fun weave :: "string list \<Rightarrow> string list \<Rightarrow> string" where
  "weave [] vs = []"
| "weave [p] vs = p"
| "weave (p # ps) [] = p @ weave ps []"
| "weave (p # ps) (v # vs) = p @ v @ weave ps vs"

definition sample_Printf :: printer where
  "sample_Printf format vs = weave (pieces [] format) vs"

definition sample_Synonym :: "string \<Rightarrow> string \<Rightarrow> bool" where
  "sample_Synonym a b = (a = b)"

section \<open>burst: what the container table encodes\<close>






section \<open>Sample inputs\<close>

definition quiet_draw :: draws where
  "quiet_draw = (\<lambda>i. (\<lparr>rr_buf = [0, 0, 0, 0], rr_n = 4, rr_err = False\<rparr>, 0))"

definition sample_mesh :: mesh_state where
  "sample_mesh =
     \<lparr>Nodes = [''10.0.0.2:7777'' \<mapsto> ''10.0.0.2:7777'',
               ''10.0.0.3:7777'' \<mapsto> ''This node got an eviction notice.''],
      Index = [''KEYA'' \<mapsto> ''10.0.0.2:7777'', ''KEYB'' \<mapsto> ''10.0.0.3:7777'']\<rparr>"

definition sample_request ::
  "string \<Rightarrow> string \<Rightarrow> (string \<rightharpoonup> string) \<Rightarrow> string \<Rightarrow> request" where
  "sample_request m u h b =
     \<lparr>Method = m, URL = u, Header = h, Query = h, Body = b, BodyReadFails = False\<rparr>"

definition sample_proxy :: "string \<Rightarrow> string \<Rightarrow> string \<Rightarrow> string" where
  "sample_proxy url m b = ''forwarded''"

definition sample_admin :: "request \<Rightarrow> string option" where
  "sample_admin r = (if lookup (Query r) ''apikey'' = ''ADMIN'' then Some ''ADMIN'' else None)"

definition sample_MeshPattern :: string where
  "sample_MeshPattern = ''Key %s is served by %s;''"

definition sample_stream :: string where
  "sample_stream =
     ''Key KEYC is served by node4;'' @ [CHR 0x0A] @ ''not a sentence'' @ [CHR 0x0D, CHR 0x0A] @
     ''Key KEYA is served by node5;'' @ [CHR 0x0A] @ ''Key KEYC is served by node6;''"

definition sample_reader :: reader where
  "sample_reader = \<lparr>rd_stream = sample_stream, rd_fails_at = None, rd_end_with_data = False\<rparr>"

definition sample_burst :: burst_state where
  "sample_burst =
     \<lparr>BurstSession = [''C1'' \<mapsto> ''Burst chain api created from C1''],
      ContainerRunning = Map.empty, ContainerResults = Map.empty, firstRun = True\<rparr>"

definition no_worker :: run_env where
  "no_worker =
     \<lparr>takes_channel = None, takes_input = None, posts_output = None,
      tie1 = False, tie2 = False, tie3 = False\<rparr>"

definition one_second :: "64 word" where
  "one_second = 1000000000"

definition sample_table :: table where
  "sample_table =
     [''KEYA'' \<mapsto> ''Burst container has key KEYA and it is finished with the following result 42'',
      ''KEYB'' \<mapsto> ''Burst container has key KEYB and it is running code.Run this.sleep'']"

definition nobody :: "nat \<Rightarrow> table \<Rightarrow> table" where
  "nobody i Container = Container"

definition sample_handler :: "string \<Rightarrow> string" where
  "sample_handler m = ''ok''"

definition sample_reads :: "udp_read list" where
  "sample_reads =
     [Datagram ''Message has started.'' ''10.0.0.9:4000'' True,
      Datagram ''hi'' ''10.0.0.9:4000'' True]"




section \<open>Key generation: properties\<close>

lemma pick_in_letters: "pick d \<in> set letters"
proof -
  have len: "length letters = 20" by (simp add: letters_def)
  have "unat ((Random (fst d) XOR snd d) mod (20 :: 32 word)) < 20"
    by (simp add: unat_mod)
  then have "unat ((Random (fst d) XOR snd d) mod of_nat (length letters)) < length letters"
    by (simp add: len)
  then show ?thesis
    unfolding pick_def by (rule nth_mem)
qed

lemma fold_upd_length:
  "length (fold (\<lambda>i k. k[i := f i]) is key) = length key"
  by (induction "is" arbitrary: key) simp_all

lemma fold_upd_upt:
  "n \<le> length key \<Longrightarrow> i < n \<Longrightarrow> fold (\<lambda>i k. k[i := f i]) [0..<n] key ! i = f i"
proof (induction n arbitrary: i)
  case 0
  then show ?case by simp
next
  case (Suc n)
  show ?case
  proof (cases "i = n")
    case True
    with Suc.prems show ?thesis by (simp add: fold_upd_length)
  next
    case False
    with Suc.prems have "i < n" by simp
    with Suc show ?thesis by (simp add: fold_upd_length)
  qed
qed

lemma fill_length: "length (fill draw c key) = length key"
  by (simp add: fill_def fold_upd_length)

lemma fill_letters:
  assumes "length key = 64"
  shows "set (fill draw c key) \<subseteq> set letters"
proof
  fix ch assume "ch \<in> set (fill draw c key)"
  then obtain i where i: "i < 64" and ch: "ch = fill draw c key ! i"
    using assms by (auto simp: in_set_conv_nth fill_length)
  have "fill draw c key ! i = pick (draw (c + i))"
    unfolding fill_def using assms i by (intro fold_upd_upt) simp_all
  with ch show "ch \<in> set letters" by (simp add: pick_in_letters)
qed

lemma rounds_length: "length (rounds m draw c key) = length key"
  by (induction m arbitrary: c key) (simp_all add: Let_def fill_length)

lemma rounds_letters:
  "length key = 64 \<Longrightarrow> 0 < m \<Longrightarrow> set (rounds m draw c key) \<subseteq> set letters"
proof (induction m arbitrary: c key)
  case 0
  then show ?case by simp
next
  case (Suc m)
  let ?k = "fill draw c key"
  have len: "length ?k = 64" using Suc.prems by (simp add: fill_length)
  have sub: "set ?k \<subseteq> set letters" using Suc.prems by (intro fill_letters) simp
  show ?case
  proof (cases "?k ! 3 = CHR ''A'' \<or> m = 0")
    case True
    then show ?thesis using sub by (auto simp: Let_def)
  next
    case False
    then have "set (rounds m draw (c + 64) ?k) \<subseteq> set letters"
      using Suc.IH[OF len] by simp
    with False show ?thesis by (simp add: Let_def)
  qed
qed

lemma letters_range: "ch \<in> set letters \<Longrightarrow> 65 \<le> (of_char ch :: nat) \<and> (of_char ch :: nat) \<le> 84"
  by (auto simp: letters_def)

text \<open>
  C10. Every string \<^verbatim>\<open>GenerateUniqueKey\<close> returns has length 64, consists of
  characters from 'A' (65) to 'T' (84) only, and has 'B' at index 4, whatever the
  random draws are; and the function returns a string whenever the stat of the
  executable succeeded.
\<close>

theorem GenerateUniqueKey_shape:
  "(\<forall>s. GenerateUniqueKey x draw = Inr s \<longrightarrow>
      length s = 64 \<and>
      (\<forall>ch \<in> set s. ch \<in> set ''ABCDEFGHIJKLMNOPQRST'' \<and>
                     65 \<le> (of_char ch :: nat) \<and> (of_char ch :: nat) \<le> 84) \<and>
      s ! 4 = CHR ''B'') \<and>
   (\<forall>modTime. x = Some modTime \<longrightarrow> (\<exists>s. GenerateUniqueKey x draw = Inr s))"
proof (intro conjI allI impI)
  fix s assume ret: "GenerateUniqueKey x draw = Inr s"
  define key where "key = rounds 1000 draw 0 (replicate 64 (CHR 0x00))"
  from ret have s: "s = key[4 := CHR ''B'']"
    by (auto simp: GenerateUniqueKey_def key_def split: option.splits)
  have len: "length key = 64" by (simp add: key_def rounds_length)
  have sub: "set key \<subseteq> set letters"
    unfolding key_def by (intro rounds_letters) simp_all
  show "length s = 64" using s len by simp
  show "s ! 4 = CHR ''B''" using s len by simp
  have "CHR ''B'' \<in> set letters" by (simp add: letters_def)
  with sub have mem: "set s \<subseteq> set letters"
    unfolding s using set_update_subset_insert[of key 4 "CHR ''B''"] by auto
  show "\<forall>ch \<in> set s. ch \<in> set ''ABCDEFGHIJKLMNOPQRST'' \<and>
                     65 \<le> (of_char ch :: nat) \<and> (of_char ch :: nat) \<le> 84"
  proof
    fix ch assume "ch \<in> set s"
    with mem have "ch \<in> set letters" by auto
    then show "ch \<in> set ''ABCDEFGHIJKLMNOPQRST'' \<and>
        65 \<le> (of_char ch :: nat) \<and> (of_char ch :: nat) \<le> 84"
      using letters_range[of ch] by (simp add: letters_def)
  qed
next
  fix modTime assume "x = Some modTime"
  then show "\<exists>s. GenerateUniqueKey x draw = Inr s"
    by (simp add: GenerateUniqueKey_def)
qed


lemma fill_constant:
  assumes "length key = 64" and "\<And>i. pick (draw i) = ch"
  shows "fill draw c key = replicate 64 ch"
proof (rule nth_equalityI)
  show "length (fill draw c key) = length (replicate 64 ch)"
    using assms(1) by (simp add: fill_length)
next
  fix i assume "i < length (fill draw c key)"
  then have i: "i < 64" using assms(1) by (simp add: fill_length)
  have "fill draw c key ! i = pick (draw (c + i))"
    unfolding fill_def using assms(1) i by (intro fold_upd_upt) simp_all
  then show "fill draw c key ! i = replicate 64 ch ! i"
    using i assms(2) by simp
qed

lemma pick_quiet: "pick (quiet_draw i) = CHR ''A''"
  by (simp add: pick_def quiet_draw_def Random_def letters_def)

lemma quiet_key:
  "GenerateUniqueKey (Some 0) quiet_draw =
     Inr ''AAAABAAAAAAAAAAAAAAAAAAAAAAAAAAAAAAAAAAAAAAAAAAAAAAAAAAAAAAAAAAA''"
proof -
  have f: "fill quiet_draw 0 (replicate 64 (CHR 0x00)) = replicate 64 (CHR ''A'')"
    by (rule fill_constant) (simp_all add: pick_quiet)
  have "rounds (Suc 999) quiet_draw 0 (replicate 64 (CHR 0x00)) = replicate 64 (CHR ''A'')"
    unfolding rounds.simps f Let_def by simp
  then have r: "rounds 1000 quiet_draw 0 (replicate 64 (CHR 0x00)) = replicate 64 (CHR ''A'')"
    by simp
  have e: "replicate 64 (CHR ''A'') =
      ''AAAAAAAAAAAAAAAAAAAAAAAAAAAAAAAAAAAAAAAAAAAAAAAAAAAAAAAAAAAAAAAA''"
    by (simp add: numeral_eq_Suc)
  show ?thesis
    unfolding GenerateUniqueKey_def r e by simp
qed

theorem GenerateUniqueKey_shape_witness:
  "GenerateUniqueKey (Some 0) quiet_draw =
     Inr ''AAAABAAAAAAAAAAAAAAAAAAAAAAAAAAAAAAAAAAAAAAAAAAAAAAAAAAAAAAAAAAA'' \<and>
   length ''AAAABAAAAAAAAAAAAAAAAAAAAAAAAAAAAAAAAAAAAAAAAAAAAAAAAAAAAAAAAAAA'' = 64 \<and>
   ''AAAABAAAAAAAAAAAAAAAAAAAAAAAAAAAAAAAAAAAAAAAAAAAAAAAAAAAAAAAAAAA'' ! 4 = CHR ''B''"
  using GenerateUniqueKey_shape[of "Some 0" quiet_draw] quiet_key by simp

section \<open>mesh: properties\<close>

lemma Replace1_unchanged: "\<not> sublist old s \<Longrightarrow> Replace1 s old new = s"
proof (induction s)
  case Nil
  then show ?case by auto
next
  case (Cons c cs)
  have "\<not> prefix old (c # cs)" using Cons.prems prefix_imp_sublist by blast
  moreover have "\<not> sublist old cs" using Cons.prems by (auto simp: sublist_Cons_right)
  ultimately show ?case using Cons.IH by simp
qed

text \<open>
  C3. \<^verbatim>\<open>Proxy\<close> answers 404 when the apikey header is absent (or empty) or the key
  index has no server for the key, and 410 when the registry entry of the key's
  server passes the eviction test; whenever the status is not 200 the HTTP proxy
  collaborator was not called.
\<close>

theorem Proxy_errors:
  "(lookup (Header r) ''apikey'' = '''' \<or>
    lookup (Index st) (lookup (Header r) ''apikey'') = '''' \<longrightarrow>
      p_status (Proxy Synonym HttpProxyRequest SiteUrl st r) = 404 \<and>
      p_forward (Proxy Synonym HttpProxyRequest SiteUrl st r) = None) \<and>
   (lookup (Header r) ''apikey'' \<noteq> '''' \<and>
    lookup (Index st) (lookup (Header r) ''apikey'') \<noteq> '''' \<and>
    Synonym (lookup (Nodes st) (lookup (Index st) (lookup (Header r) ''apikey'')))
      eviction_notice \<longrightarrow>
      p_status (Proxy Synonym HttpProxyRequest SiteUrl st r) = 410 \<and>
      p_forward (Proxy Synonym HttpProxyRequest SiteUrl st r) = None) \<and>
   (p_status (Proxy Synonym HttpProxyRequest SiteUrl st r) \<noteq> 200 \<longrightarrow>
      p_forward (Proxy Synonym HttpProxyRequest SiteUrl st r) = None)"
  by (auto simp: Proxy_def Let_def not_found_def findServerOfApiKey_def)

theorem Proxy_errors_witness:
  "p_status (Proxy sample_Synonym sample_proxy ''http://127.0.0.1:7777'' sample_mesh
      (sample_request ''GET'' ''http://127.0.0.1:7777/x'' Map.empty '''')) = 404 \<and>
   p_forward (Proxy sample_Synonym sample_proxy ''http://127.0.0.1:7777'' sample_mesh
      (sample_request ''GET'' ''http://127.0.0.1:7777/x'' Map.empty '''')) = None \<and>
   p_status (Proxy sample_Synonym sample_proxy ''http://127.0.0.1:7777'' sample_mesh
      (sample_request ''GET'' ''http://127.0.0.1:7777/x'' [''apikey'' \<mapsto> ''KEYC''] '''')) = 404 \<and>
   p_forward (Proxy sample_Synonym sample_proxy ''http://127.0.0.1:7777'' sample_mesh
      (sample_request ''GET'' ''http://127.0.0.1:7777/x'' [''apikey'' \<mapsto> ''KEYC''] '''')) = None \<and>
   p_status (Proxy sample_Synonym sample_proxy ''http://127.0.0.1:7777'' sample_mesh
      (sample_request ''GET'' ''http://127.0.0.1:7777/x'' [''apikey'' \<mapsto> ''KEYB''] '''')) = 410 \<and>
   p_forward (Proxy sample_Synonym sample_proxy ''http://127.0.0.1:7777'' sample_mesh
      (sample_request ''GET'' ''http://127.0.0.1:7777/x'' [''apikey'' \<mapsto> ''KEYB''] '''')) = None"
proof -
  let ?absent = "sample_request ''GET'' ''http://127.0.0.1:7777/x'' Map.empty ''''"
  let ?unknown = "sample_request ''GET'' ''http://127.0.0.1:7777/x'' [''apikey'' \<mapsto> ''KEYC''] ''''"
  let ?gone = "sample_request ''GET'' ''http://127.0.0.1:7777/x'' [''apikey'' \<mapsto> ''KEYB''] ''''"
  have a: "lookup (Header ?absent) ''apikey'' = ''''"
    by (simp add: sample_request_def lookup_def)
  have u: "lookup (Index sample_mesh) (lookup (Header ?unknown) ''apikey'') = ''''"
    by (simp add: sample_request_def sample_mesh_def lookup_def)
  have g: "lookup (Header ?gone) ''apikey'' \<noteq> '''' \<and>
      lookup (Index sample_mesh) (lookup (Header ?gone) ''apikey'') \<noteq> '''' \<and>
      sample_Synonym (lookup (Nodes sample_mesh)
         (lookup (Index sample_mesh) (lookup (Header ?gone) ''apikey''))) eviction_notice"
    by (simp add: sample_request_def sample_mesh_def lookup_def sample_Synonym_def
        eviction_notice_def)
  show ?thesis
    using a u g
      Proxy_errors[where r = ?absent and st = sample_mesh and Synonym = sample_Synonym
        and HttpProxyRequest = sample_proxy and SiteUrl = "''http://127.0.0.1:7777''"]
      Proxy_errors[where r = ?unknown and st = sample_mesh and Synonym = sample_Synonym
        and HttpProxyRequest = sample_proxy and SiteUrl = "''http://127.0.0.1:7777''"]
      Proxy_errors[where r = ?gone and st = sample_mesh and Synonym = sample_Synonym
        and HttpProxyRequest = sample_proxy and SiteUrl = "''http://127.0.0.1:7777''"]
    by blast
qed

text \<open>
  C9, as the code has it. When the URL of the request does not contain the site
  URL, \<^verbatim>\<open>Proxy\<close> forwards nothing and answers 404, except that it answers 410 when
  the key is known and the registry entry of its server passes the eviction test,
  a check that comes before the URL is looked at.
\<close>

theorem Proxy_foreign_url:
  assumes "\<not> sublist SiteUrl (URL r)"
  shows "p_forward (Proxy Synonym HttpProxyRequest SiteUrl st r) = None \<and>
         p_status (Proxy Synonym HttpProxyRequest SiteUrl st r) =
           (if lookup (Header r) ''apikey'' \<noteq> '''' \<and>
               lookup (Index st) (lookup (Header r) ''apikey'') \<noteq> '''' \<and>
               Synonym (lookup (Nodes st) (lookup (Index st) (lookup (Header r) ''apikey'')))
                 eviction_notice
            then 410 else 404)"
  using Replace1_unchanged[OF assms]
  by (simp add: Proxy_def Let_def not_found_def findServerOfApiKey_def)

theorem Proxy_foreign_url_witness:
  "p_forward (Proxy sample_Synonym sample_proxy ''http://127.0.0.1:7777'' sample_mesh
      (sample_request ''GET'' ''/x'' [''apikey'' \<mapsto> ''KEYA''] '''')) = None \<and>
   p_status (Proxy sample_Synonym sample_proxy ''http://127.0.0.1:7777'' sample_mesh
      (sample_request ''GET'' ''/x'' [''apikey'' \<mapsto> ''KEYA''] '''')) = 404"
proof -
  let ?a = "sample_request ''GET'' ''/x'' [''apikey'' \<mapsto> ''KEYA''] ''''"
  have a: "\<not> sublist ''http://127.0.0.1:7777'' (URL ?a)"
    by (simp add: sublist_code sample_request_def)
  show ?thesis
    using Proxy_foreign_url[OF a, where Synonym = sample_Synonym and st = sample_mesh
        and HttpProxyRequest = sample_proxy]
    by (simp add: sample_request_def sample_mesh_def lookup_def sample_Synonym_def
        eviction_notice_def)
qed

text \<open>
  The claim C9 as stated (404 for every request whose URL lacks the site URL)
  fails for a key whose server is evicted: the answer is 410.
\<close>

theorem Proxy_foreign_url_counterexample:
  "\<not> sublist ''http://127.0.0.1:7777''
       (URL (sample_request ''GET'' ''/x'' [''apikey'' \<mapsto> ''KEYB''] '''')) \<and>
   p_status (Proxy sample_Synonym sample_proxy ''http://127.0.0.1:7777'' sample_mesh
      (sample_request ''GET'' ''/x'' [''apikey'' \<mapsto> ''KEYB''] '''')) = 410 \<and>
   p_status (Proxy sample_Synonym sample_proxy ''http://127.0.0.1:7777'' sample_mesh
      (sample_request ''GET'' ''/x'' [''apikey'' \<mapsto> ''KEYB''] '''')) \<noteq> 404"
  by (simp add: sublist_code sample_request_def sample_mesh_def Proxy_def Let_def lookup_def
      findServerOfApiKey_def sample_Synonym_def eviction_notice_def not_found_def)

text \<open>
  C5, as the code has it. An admitted DELETE on \<^verbatim>\<open>/node\<close> that names an address
  whose entry is the eviction notice leaves the registry as it was, answers 200 and
  makes no second ring forward and no round robin call; the one ring forward the
  handler makes for every request with an address, before it looks at the method,
  is still made.
\<close>

theorem Setup_node_delete_evicted:
  assumes "EnsureAdministrator r = Some adminKey"
    and "Method r = ''DELETE''"
    and "NoErrorString r \<noteq> ''''"
    and "lookup (Nodes st) (NoErrorString r) = eviction_notice"
  shows "n_state (Setup_node EnsureAdministrator order st r) = st \<and>
         n_status (Setup_node EnsureAdministrator order st r) = 200 \<and>
         n_effects (Setup_node EnsureAdministrator order st r) =
           [QuantumGradeAuthorization, ForwardRoundRobinRingRequest r]"
  using assms by (simp add: Setup_node_def Let_def eviction_notice_def)

theorem Setup_node_delete_evicted_witness:
  "n_state (Setup_node sample_admin [] sample_mesh
      (sample_request ''DELETE'' ''/node?apikey=ADMIN'' [''apikey'' \<mapsto> ''ADMIN'']
         ''10.0.0.3:7777'')) = sample_mesh \<and>
   n_status (Setup_node sample_admin [] sample_mesh
      (sample_request ''DELETE'' ''/node?apikey=ADMIN'' [''apikey'' \<mapsto> ''ADMIN'']
         ''10.0.0.3:7777'')) = 200 \<and>
   n_effects (Setup_node sample_admin [] sample_mesh
      (sample_request ''DELETE'' ''/node?apikey=ADMIN'' [''apikey'' \<mapsto> ''ADMIN'']
         ''10.0.0.3:7777'')) =
     [QuantumGradeAuthorization, ForwardRoundRobinRingRequest
        (sample_request ''DELETE'' ''/node?apikey=ADMIN'' [''apikey'' \<mapsto> ''ADMIN'']
           ''10.0.0.3:7777'')]"
proof -
  let ?r = "sample_request ''DELETE'' ''/node?apikey=ADMIN'' [''apikey'' \<mapsto> ''ADMIN'']
              ''10.0.0.3:7777''"
  have 1: "sample_admin ?r = Some ''ADMIN''"
    by (simp add: sample_admin_def sample_request_def lookup_def)
  have 2: "Method ?r = ''DELETE''" by (simp add: sample_request_def)
  have 3: "NoErrorString ?r \<noteq> ''''" by (simp add: sample_request_def NoErrorString_def)
  have 4: "lookup (Nodes sample_mesh) (NoErrorString ?r) = eviction_notice"
    by (simp add: sample_request_def NoErrorString_def sample_mesh_def lookup_def
        eviction_notice_def)
  show ?thesis
    using 1 2 3 4
      Setup_node_delete_evicted[where EnsureAdministrator = sample_admin and r = ?r
        and st = sample_mesh and adminKey = "''ADMIN''" and order = "[]"]
    by simp
qed

text \<open>
  The claim C5 as stated (no propagation at all) fails: the DELETE of an address
  that is already evicted is handed to the ring forward once.
\<close>

theorem Setup_node_delete_evicted_counterexample:
  "lookup (Nodes sample_mesh) ''10.0.0.3:7777'' = eviction_notice \<and>
   ForwardRoundRobinRingRequest
     (sample_request ''DELETE'' ''/node?apikey=ADMIN'' [''apikey'' \<mapsto> ''ADMIN'']
        ''10.0.0.3:7777'')
   \<in> set (n_effects (Setup_node sample_admin [] sample_mesh
        (sample_request ''DELETE'' ''/node?apikey=ADMIN'' [''apikey'' \<mapsto> ''ADMIN'']
           ''10.0.0.3:7777'')))"
  by (simp add: Setup_node_def Let_def eviction_notice_def sample_mesh_def sample_request_def
      sample_admin_def lookup_def NoErrorString_def)

section \<open>mesh: the index update\<close>

lemma parsed_entries_Nil: "parsed_entries Scanf MeshPattern [] = []"
  by (simp add: parsed_entries_def map_filter_simps)

lemma parsed_entries_Cons:
  "parsed_entries Scanf MeshPattern (line # lines) =
     (case Scanf line MeshPattern of
        None \<Rightarrow> parsed_entries Scanf MeshPattern lines
      | Some vs \<Rightarrow> (arg vs 0, arg vs 1) # parsed_entries Scanf MeshPattern lines)"
  by (simp add: parsed_entries_def map_filter_simps split: option.splits)

lemma UpdateIndex_loop_entries:
  "UpdateIndex_loop Scanf MeshPattern lines index =
     index ++ map_of (rev (parsed_entries Scanf MeshPattern lines))"
proof (induction lines arbitrary: index)
  case Nil
  then show ?case by (simp add: parsed_entries_Nil)
next
  case (Cons line lines)
  show ?case
  proof (cases "Scanf line MeshPattern")
    case None
    then show ?thesis using Cons.IH by (simp add: parsed_entries_Cons)
  next
    case (Some vs)
    define k where "k = arg vs 0"
    define v where "v = arg vs 1"
    define es where "es = parsed_entries Scanf MeshPattern lines"
    have step: "UpdateIndex_loop Scanf MeshPattern (line # lines) index =
        UpdateIndex_loop Scanf MeshPattern lines (index(k \<mapsto> v))"
      using Some by (simp add: k_def v_def)
    have ih: "UpdateIndex_loop Scanf MeshPattern lines (index(k \<mapsto> v)) =
        index(k \<mapsto> v) ++ map_of (rev es)"
      unfolding es_def by (rule Cons.IH)
    have add: "index(k \<mapsto> v) ++ map_of (rev es) = index ++ map_of (rev es @ [(k, v)])"
      by (simp add: fun_eq_iff map_add_def split: option.splits)
    have ents: "parsed_entries Scanf MeshPattern (line # lines) = (k, v) # es"
      using Some by (simp add: parsed_entries_Cons k_def v_def es_def)
    show ?thesis
      unfolding step ih add ents by simp
  qed
qed

lemma UpdateIndex_loop_snoc:
  "UpdateIndex_loop Scanf MeshPattern (lines @ [line]) index =
     (case Scanf line MeshPattern of
        None \<Rightarrow> UpdateIndex_loop Scanf MeshPattern lines index
      | Some vs \<Rightarrow> (UpdateIndex_loop Scanf MeshPattern lines index)(arg vs 0 \<mapsto> arg vs 1))"
  by (induction lines arbitrary: index) (simp_all split: option.splits)

lemma UpdateIndex_loop_filter:
  "UpdateIndex_loop Scanf MeshPattern (filter (\<lambda>line. Scanf line MeshPattern \<noteq> None) lines) index =
     UpdateIndex_loop Scanf MeshPattern lines index"
  by (induction lines arbitrary: index) (auto split: option.splits)

lemma Scan_short:
  "\<forall>l \<in> set (raw_lines pending s). length l < MaxScanTokenSize \<Longrightarrow>
   Scan with_data pending s = map dropCR (raw_lines pending s)"
proof (induction s arbitrary: pending)
  case Nil
  then show ?case by (cases "pending = []") simp_all
next
  case (Cons c cs)
  show ?case
  proof (cases "c = CHR 0x0A")
    case True
    then have "length pending < MaxScanTokenSize"
      and "\<forall>l \<in> set (raw_lines [] cs). length l < MaxScanTokenSize"
      using Cons.prems by simp_all
    then show ?thesis using True Cons.IH[of "[]"] by simp
  next
    case False
    then have "\<forall>l \<in> set (raw_lines (c # pending) cs). length l < MaxScanTokenSize"
      using Cons.prems by simp
    then show ?thesis using False Cons.IH[of "c # pending"] by simp
  qed
qed

lemma Scan_replicate:
  "c \<noteq> CHR 0x0A \<Longrightarrow>
   Scan with_data pending (replicate n c @ s) = Scan with_data (replicate n c @ pending) s"
proof (induction n arbitrary: pending)
  case 0
  then show ?case by simp
next
  case (Suc n)
  then have "Scan with_data pending (replicate (Suc n) c @ s) =
      Scan with_data (replicate n c @ c # pending) s"
    by simp
  then show ?case by (simp add: replicate_app_Cons_same)
qed

lemma raw_lines_replicate:
  "c \<noteq> CHR 0x0A \<Longrightarrow>
   raw_lines pending (replicate n c @ s) = raw_lines (replicate n c @ pending) s"
proof (induction n arbitrary: pending)
  case 0
  then show ?case by simp
next
  case (Suc n)
  then have "raw_lines pending (replicate (Suc n) c @ s) =
      raw_lines (replicate n c @ c # pending) s"
    by simp
  then show ?case by (simp add: replicate_app_Cons_same)
qed

text \<open>
  C4, as the code has it. When the reader delivers the whole stream without a read
  error and every line of the stream (the bytes before its newline) is shorter
  than 64 KiB, \<^verbatim>\<open>UpdateIndex\<close> sets the index to exactly the entries parsed from the
  lines of the stream: the new index is the map of the parsed pairs in which a
  later line wins over an earlier one for the same key; lines the scanner of
  sentences rejects can be dropped without changing the result; the result does
  not depend on the index held before; and the node registry is left alone.
\<close>

theorem UpdateIndex_replaces:
  assumes "rd_fails_at r = None"
    and "\<forall>l \<in> set (raw_lines [] (rd_stream r)). length l < MaxScanTokenSize"
  shows "Index (UpdateIndex Scanf MeshPattern r st) =
           map_of (rev (parsed_entries Scanf MeshPattern (stream_lines (rd_stream r)))) \<and>
         Index (UpdateIndex Scanf MeshPattern r st) =
           UpdateIndex_loop Scanf MeshPattern
             (filter (\<lambda>line. Scanf line MeshPattern \<noteq> None) (stream_lines (rd_stream r)))
             Map.empty \<and>
         UpdateIndex_loop Scanf MeshPattern (lines @ [line]) index =
           (case Scanf line MeshPattern of
              None \<Rightarrow> UpdateIndex_loop Scanf MeshPattern lines index
            | Some vs \<Rightarrow> (UpdateIndex_loop Scanf MeshPattern lines index)(arg vs 0 \<mapsto> arg vs 1)) \<and>
         dom (Index (UpdateIndex Scanf MeshPattern r st)) =
           fst ` set (parsed_entries Scanf MeshPattern (stream_lines (rd_stream r))) \<and>
         UpdateIndex Scanf MeshPattern r (st\<lparr>Index := previous\<rparr>) =
           UpdateIndex Scanf MeshPattern r st \<and>
         Nodes (UpdateIndex Scanf MeshPattern r st) = Nodes st"
proof -
  have scanned: "Scanner_Text r = stream_lines (rd_stream r)"
    unfolding Scanner_Text_def stream_lines_def delivered_bytes_def assms(1)
    using Scan_short[OF assms(2)] by simp
  have idx: "Index (UpdateIndex Scanf MeshPattern r st) =
      UpdateIndex_loop Scanf MeshPattern (stream_lines (rd_stream r)) Map.empty"
    by (simp add: UpdateIndex_def scanned)
  have 1: "Index (UpdateIndex Scanf MeshPattern r st) =
      map_of (rev (parsed_entries Scanf MeshPattern (stream_lines (rd_stream r))))"
    unfolding idx by (simp add: UpdateIndex_loop_entries)
  have 2: "Index (UpdateIndex Scanf MeshPattern r st) =
      UpdateIndex_loop Scanf MeshPattern
        (filter (\<lambda>line. Scanf line MeshPattern \<noteq> None) (stream_lines (rd_stream r))) Map.empty"
    unfolding idx UpdateIndex_loop_filter by (rule refl)
  have 3: "dom (Index (UpdateIndex Scanf MeshPattern r st)) =
      fst ` set (parsed_entries Scanf MeshPattern (stream_lines (rd_stream r)))"
    unfolding 1 by (simp add: dom_map_of_conv_image_fst)
  have 4: "UpdateIndex Scanf MeshPattern r (st\<lparr>Index := previous\<rparr>) =
      UpdateIndex Scanf MeshPattern r st"
    by (simp add: UpdateIndex_def)
  have 5: "Nodes (UpdateIndex Scanf MeshPattern r st) = Nodes st"
    by (simp add: UpdateIndex_def)
  show ?thesis
    using 1 2 3 4 5 UpdateIndex_loop_snoc[of Scanf MeshPattern lines line index] by blast
qed

lemma sample_raw_lines:
  "raw_lines [] sample_stream =
     [''Key KEYC is served by node4;'', ''not a sentence'' @ [CHR 0x0D],
      ''Key KEYA is served by node5;'', ''Key KEYC is served by node6;'']"
  by (simp add: sample_stream_def)

lemma sample_entries:
  "parsed_entries sample_Scanf1 sample_MeshPattern
     [''Key KEYC is served by node4;'', ''not a sentence'',
      ''Key KEYA is served by node5;'', ''Key KEYC is served by node6;''] =
     [(''KEYC'', ''node4''), (''KEYA'', ''node5''), (''KEYC'', ''node6'')]"
  by (simp add: parsed_entries_def sample_MeshPattern_def sample_Scanf1_def
      map_filter_simps arg_def)

theorem UpdateIndex_replaces_witness:
  "Index (UpdateIndex sample_Scanf1 sample_MeshPattern sample_reader sample_mesh) =
     [''KEYA'' \<mapsto> ''node5'', ''KEYC'' \<mapsto> ''node6''] \<and>
   Index (UpdateIndex sample_Scanf1 sample_MeshPattern sample_reader sample_mesh) ''KEYB'' = None \<and>
   Nodes (UpdateIndex sample_Scanf1 sample_MeshPattern sample_reader sample_mesh) =
     Nodes sample_mesh"
proof -
  have 1: "rd_fails_at sample_reader = None" by (simp add: sample_reader_def)
  have c: "rd_stream sample_reader = sample_stream" by (simp add: sample_reader_def)
  have 2: "\<forall>l \<in> set (raw_lines [] (rd_stream sample_reader)). length l < MaxScanTokenSize"
    unfolding c sample_raw_lines by (simp add: MaxScanTokenSize_def)
  have l: "stream_lines (rd_stream sample_reader) =
      [''Key KEYC is served by node4;'', ''not a sentence'',
       ''Key KEYA is served by node5;'', ''Key KEYC is served by node6;'']"
    unfolding c stream_lines_def sample_raw_lines by (simp add: dropCR_def)
  have "Index (UpdateIndex sample_Scanf1 sample_MeshPattern sample_reader sample_mesh) =
      map_of (rev (parsed_entries sample_Scanf1 sample_MeshPattern
        (stream_lines (rd_stream sample_reader))))"
    and n: "Nodes (UpdateIndex sample_Scanf1 sample_MeshPattern sample_reader sample_mesh) =
      Nodes sample_mesh"
    using UpdateIndex_replaces[OF 1 2, of sample_Scanf1 sample_MeshPattern sample_mesh]
    by blast+
  then have "Index (UpdateIndex sample_Scanf1 sample_MeshPattern sample_reader sample_mesh) =
      [''KEYA'' \<mapsto> ''node5'', ''KEYC'' \<mapsto> ''node6'']"
    unfolding l sample_entries by (simp add: fun_eq_iff)
  then show ?thesis using n by simp
qed

text \<open>
  The claim C4 as stated fails on a stream with a line of 70000 bytes: the scan ends
  at that line, so the well-formed line after it, which the scanner of sentences
  accepts, contributes nothing and the index installed is empty.
\<close>

theorem UpdateIndex_replaces_counterexample:
  "stream_lines (replicate 70000 (CHR ''x'') @ CHR 0x0A # ''Key KEYA is served by node5;'') =
     [replicate 70000 (CHR ''x''), ''Key KEYA is served by node5;''] \<and>
   sample_Scanf1 ''Key KEYA is served by node5;'' sample_MeshPattern =
     Some [''KEYA'', ''node5''] \<and>
   Index (UpdateIndex sample_Scanf1 sample_MeshPattern
      \<lparr>rd_stream = replicate 70000 (CHR ''x'') @ CHR 0x0A # ''Key KEYA is served by node5;'',
       rd_fails_at = None, rd_end_with_data = False\<rparr> sample_mesh) = Map.empty"
proof -
  have x: "CHR ''x'' \<noteq> CHR 0x0A" by simp
  have a: "raw_lines [] (replicate 70000 (CHR ''x'') @ CHR 0x0A # ''Key KEYA is served by node5;'') =
      [replicate 70000 (CHR ''x''), ''Key KEYA is served by node5;'']"
    unfolding raw_lines_replicate[OF x] by simp
  have b: "dropCR (replicate 70000 (CHR ''x'')) = replicate 70000 (CHR ''x'')"
    by (simp add: dropCR_def)
  have c: "Scan False [] (replicate 70000 (CHR ''x'') @ CHR 0x0A # ''Key KEYA is served by node5;'') = []"
    unfolding Scan_replicate[OF x] by (simp add: MaxScanTokenSize_def)
  have d: "sample_Scanf1 ''Key KEYA is served by node5;'' sample_MeshPattern =
      Some [''KEYA'', ''node5'']"
    by (simp add: sample_MeshPattern_def sample_Scanf1_def)
  have e: "stream_lines (replicate 70000 (CHR ''x'') @ CHR 0x0A # ''Key KEYA is served by node5;'') =
      [replicate 70000 (CHR ''x''), ''Key KEYA is served by node5;'']"
    unfolding stream_lines_def a using b by (simp add: dropCR_def)
  have f: "Index (UpdateIndex sample_Scanf1 sample_MeshPattern
      \<lparr>rd_stream = replicate 70000 (CHR ''x'') @ CHR 0x0A # ''Key KEYA is served by node5;'',
       rd_fails_at = None, rd_end_with_data = False\<rparr> sample_mesh) = Map.empty"
    by (simp add: UpdateIndex_def Scanner_Text_def delivered_bytes_def c)
  show ?thesis using d e f by blast
qed

section \<open>burst: the /run handler\<close>

lemma sint_double:
  fixes T :: "64 word"
  shows "sint (T + T) = signed_take_bit 63 (2 * sint T)"
proof -
  have "sint (T + T) = signed_take_bit (LENGTH(64) - 1) (sint T + sint T)"
    by (rule sint_word_add)
  moreover have "sint T + sint T = 2 * sint T" by arith
  moreover have "LENGTH(64) - 1 = (63::nat)" by simp
  ultimately show ?thesis by (simp only:)
qed

lemma After_double_le:
  fixes T :: "64 word"
  assumes "0 \<le> sint T"
  shows "After (T + T) \<le> 2 * sint T"
proof (cases "2 * sint T < 2 ^ 63")
  case True
  then have "signed_take_bit 63 (2 * sint T) = 2 * sint T"
    using assms by (intro signed_take_bit_int_eq_self) simp_all
  then show ?thesis unfolding After_def sint_double using assms by simp
next
  case False
  then have "signed_take_bit 63 (2 * sint T) \<le> 2 * sint T - 2 ^ Suc 63"
    by (intro signed_take_bit_int_less_eq) simp
  moreover have "sint T < 2 ^ 63" using sint_lt[of T] by simp
  ultimately have "sint (T + T) \<le> 0" unfolding sint_double by simp
  then show ?thesis unfolding After_def using assms by simp
qed

lemma After_double_eq:
  fixes T :: "64 word"
  assumes "0 \<le> sint T" and "sint T < 2 ^ 62"
  shows "After (T + T) = 2 * sint T"
proof -
  have "signed_take_bit 63 (2 * sint T) = 2 * sint T"
    using assms by (intro signed_take_bit_int_eq_self) simp_all
  then show ?thesis unfolding After_def sint_double using assms by simp
qed

lemma Setup_run_timeouts:
  assumes "BurstSession st (lookup (Query request) ''apikey'') = Some session"
    and "takes_channel env = None"
  shows "Setup_run MaxBurstRuntime st request env =
     \<lparr>r_status = 200, r_body = '''', r_collaborators = [],
      r_channel = [SendOnCode, SendInput (NoErrorString request), ReceiveOutput],
      r_elapsed = After MaxBurstRuntime + After MaxBurstRuntime
                  + After (MaxBurstRuntime + MaxBurstRuntime),
      r_state = st\<rparr>"
  using assms by (simp add: Setup_run_def Let_def select_after_def)

lemma select_after_bound: "fst (select_after d peer tie) \<le> After d"
  by (cases peer) (auto simp: select_after_def After_def split: prod.splits)

lemma Setup_run_elapsed_bound:
  "r_elapsed (Setup_run MaxBurstRuntime st request env) \<le>
     After MaxBurstRuntime + After MaxBurstRuntime + After (MaxBurstRuntime + MaxBurstRuntime)"
proof (cases "BurstSession st (lookup (Query request) ''apikey'')")
  case None
  then show ?thesis by (simp add: Setup_run_def Let_def After_def)
next
  case (Some session)
  define s1 where "s1 = select_after MaxBurstRuntime
      (map_option (\<lambda>t. (t, ())) (takes_channel env)) (tie1 env)"
  define s2 where "s2 = select_after MaxBurstRuntime
      (if snd s1 = TimedOut then None else map_option (\<lambda>t. (t, ())) (takes_input env)) (tie2 env)"
  define s3 where "s3 = select_after (MaxBurstRuntime + MaxBurstRuntime)
      (if snd s1 = TimedOut \<or> snd s2 = TimedOut then None else posts_output env) (tie3 env)"
  have "r_elapsed (Setup_run MaxBurstRuntime st request env) = fst s1 + fst s2 + fst s3"
    using Some unfolding Setup_run_def Let_def s1_def s2_def s3_def
    by (simp add: case_prod_beta)
  moreover have "fst s1 \<le> After MaxBurstRuntime" "fst s2 \<le> After MaxBurstRuntime"
    "fst s3 \<le> After (MaxBurstRuntime + MaxBurstRuntime)"
    unfolding s1_def s2_def s3_def by (rule select_after_bound)+
  ultimately show ?thesis by linarith
qed

text \<open>
  C7. A \<^verbatim>\<open>/run\<close> request whose apikey is not a key of \<^verbatim>\<open>BurstSession\<close> is answered
  402 with the payment message; the handler offers no channel operation, spends
  no time in a select and leaves the dispatcher state as it was.
\<close>

theorem Setup_run_payment_required:
  assumes "BurstSession st (lookup (Query request) ''apikey'') = None"
  shows "r_status (Setup_run MaxBurstRuntime st request env) = 402 \<and>
         r_body (Setup_run MaxBurstRuntime st request env) =
           ''Payment required with a PUT to /run.coin'' \<and>
         r_channel (Setup_run MaxBurstRuntime st request env) = [] \<and>
         r_elapsed (Setup_run MaxBurstRuntime st request env) = 0 \<and>
         r_state (Setup_run MaxBurstRuntime st request env) = st"
  using assms by (simp add: Setup_run_def Let_def)

theorem Setup_run_payment_required_witness:
  "r_status (Setup_run one_second sample_burst
      (sample_request ''PUT'' ''/run?apikey=C2'' [''apikey'' \<mapsto> ''C2''] ''task'') no_worker) = 402 \<and>
   r_body (Setup_run one_second sample_burst
      (sample_request ''PUT'' ''/run?apikey=C2'' [''apikey'' \<mapsto> ''C2''] ''task'') no_worker) =
     ''Payment required with a PUT to /run.coin'' \<and>
   r_channel (Setup_run one_second sample_burst
      (sample_request ''PUT'' ''/run?apikey=C2'' [''apikey'' \<mapsto> ''C2''] ''task'') no_worker) = [] \<and>
   r_state (Setup_run one_second sample_burst
      (sample_request ''PUT'' ''/run?apikey=C2'' [''apikey'' \<mapsto> ''C2''] ''task'') no_worker) =
     sample_burst"
proof -
  let ?r = "sample_request ''PUT'' ''/run?apikey=C2'' [''apikey'' \<mapsto> ''C2''] ''task''"
  have "BurstSession sample_burst (lookup (Query ?r) ''apikey'') = None"
    by (simp add: sample_burst_def sample_request_def lookup_def)
  then show ?thesis
    using Setup_run_payment_required[of sample_burst ?r one_second no_worker] by simp
qed

text \<open>
  C1, as the code has it. With an active session and no worker that ever takes
  the reply channel from \<^verbatim>\<open>code\<close>, the handler answers with an empty body after
  its three selects have timed out one after the other: for a budget that is not
  negative this takes at most four times the budget, and exactly four times the
  budget when twice the budget does not wrap. Whatever the workers do, the three
  selects together never take more than four times the budget.
\<close>

theorem Setup_run_no_receiver:
  assumes "BurstSession st (lookup (Query request) ''apikey'') = Some session"
    and "takes_channel env = None"
    and "0 \<le> sint MaxBurstRuntime"
  shows "r_body (Setup_run MaxBurstRuntime st request env) = '''' \<and>
         r_elapsed (Setup_run MaxBurstRuntime st request env) \<le> 4 * sint MaxBurstRuntime \<and>
         (sint MaxBurstRuntime < 2 ^ 62 \<longrightarrow>
            r_elapsed (Setup_run MaxBurstRuntime st request env) = 4 * sint MaxBurstRuntime) \<and>
         r_elapsed (Setup_run MaxBurstRuntime st request any_env) \<le> 4 * sint MaxBurstRuntime"
proof -
  have a: "After MaxBurstRuntime = sint MaxBurstRuntime"
    using assms(3) by (simp add: After_def)
  have b: "r_elapsed (Setup_run MaxBurstRuntime st request any_env) \<le> 4 * sint MaxBurstRuntime"
    using Setup_run_elapsed_bound[of MaxBurstRuntime st request any_env]
      After_double_le[OF assms(3)]
    unfolding a by linarith
  show ?thesis
    unfolding Setup_run_timeouts[OF assms(1,2)] a
    using After_double_le[OF assms(3)] After_double_eq[OF assms(3)] b
    by simp
qed

lemma sint_one_second: "sint one_second = 1000000000"
  by (simp add: one_second_def)

theorem Setup_run_no_receiver_witness:
  "r_body (Setup_run one_second sample_burst
      (sample_request ''PUT'' ''/run?apikey=C1'' [''apikey'' \<mapsto> ''C1''] ''task'') no_worker) = '''' \<and>
   r_elapsed (Setup_run one_second sample_burst
      (sample_request ''PUT'' ''/run?apikey=C1'' [''apikey'' \<mapsto> ''C1''] ''task'') no_worker) =
     4000000000"
proof -
  let ?r = "sample_request ''PUT'' ''/run?apikey=C1'' [''apikey'' \<mapsto> ''C1''] ''task''"
  have 1: "BurstSession sample_burst (lookup (Query ?r) ''apikey'') =
      Some ''Burst chain api created from C1''"
    by (simp add: sample_burst_def sample_request_def lookup_def)
  have 2: "takes_channel no_worker = None" by (simp add: no_worker_def)
  have 3: "0 \<le> sint one_second" by (simp add: sint_one_second)
  have 4: "sint one_second < 2 ^ 62" by (simp add: sint_one_second)
  show ?thesis
    using Setup_run_no_receiver[OF 1 2 3] 4 by (simp add: sint_one_second)
qed

text \<open>
  The claim C1 as stated (never blocked past twice the budget in total) fails:
  with a budget of one second and no worker the handler spends four seconds in
  its selects.
\<close>

theorem Setup_run_no_receiver_counterexample:
  "takes_channel no_worker = None \<and>
   r_elapsed (Setup_run one_second sample_burst
      (sample_request ''PUT'' ''/run?apikey=C1'' [''apikey'' \<mapsto> ''C1''] ''task'') no_worker) =
     4 * sint one_second \<and>
   \<not> r_elapsed (Setup_run one_second sample_burst
      (sample_request ''PUT'' ''/run?apikey=C1'' [''apikey'' \<mapsto> ''C1''] ''task'') no_worker)
     \<le> 2 * sint one_second"
  by (simp add: Setup_run_def Let_def select_after_def After_def sample_burst_def
      sample_request_def lookup_def no_worker_def sint_one_second sint_double one_second_def)

text \<open>
  C8, as the code has it. A \<^verbatim>\<open>/run\<close> request with an active session, made while no
  worker takes the reply channel, is answered with status 200 and an empty body
  once the three selects it offers have timed out.
\<close>

theorem Setup_run_busy_body:
  assumes "BurstSession st (lookup (Query request) ''apikey'') = Some session"
    and "takes_channel env = None"
  shows "r_status (Setup_run MaxBurstRuntime st request env) = 200 \<and>
         r_body (Setup_run MaxBurstRuntime st request env) = '''' \<and>
         r_channel (Setup_run MaxBurstRuntime st request env) =
           [SendOnCode, SendInput (NoErrorString request), ReceiveOutput] \<and>
         r_state (Setup_run MaxBurstRuntime st request env) = st"
  unfolding Setup_run_timeouts[OF assms] by simp

theorem Setup_run_busy_body_witness:
  "r_status (Setup_run one_second sample_burst
      (sample_request ''PUT'' ''/run?apikey=C1'' [''apikey'' \<mapsto> ''C1''] ''task'') no_worker) = 200 \<and>
   r_body (Setup_run one_second sample_burst
      (sample_request ''PUT'' ''/run?apikey=C1'' [''apikey'' \<mapsto> ''C1''] ''task'') no_worker) = '''' \<and>
   r_channel (Setup_run one_second sample_burst
      (sample_request ''PUT'' ''/run?apikey=C1'' [''apikey'' \<mapsto> ''C1''] ''task'') no_worker) =
     [SendOnCode, SendInput ''task'', ReceiveOutput]"
proof -
  let ?r = "sample_request ''PUT'' ''/run?apikey=C1'' [''apikey'' \<mapsto> ''C1''] ''task''"
  have 1: "BurstSession sample_burst (lookup (Query ?r) ''apikey'') =
      Some ''Burst chain api created from C1''"
    by (simp add: sample_burst_def sample_request_def lookup_def)
  have 2: "takes_channel no_worker = None" by (simp add: no_worker_def)
  have 3: "NoErrorString ?r = ''task''" by (simp add: NoErrorString_def sample_request_def)
  show ?thesis
    using Setup_run_busy_body[OF 1 2, where MaxBurstRuntime = one_second] 3 by simp
qed

text \<open>
  The busy sentence is in \<^verbatim>\<open>RunBurst\<close>, which \<^verbatim>\<open>SetupBurstLambdaEndpoint\<close> calls: when
  \<^verbatim>\<open>StartBurst\<close> returns no key, the sentence is the first component of the pair
  returned, and the result is empty.
\<close>

lemma RunBurst_busy:
  assumes "fst (StartBurst Scanf1 Printf order code Container) = ''''"
  shows "RunBurst Scanf1 Printf order others code Container =
     ((''The system is busy. Please reload.'', ''''),
      snd (StartBurst Scanf1 Printf order code Container))"
  using assms by (cases "StartBurst Scanf1 Printf order code Container") (simp add: RunBurst_def)

lemma sample_table_busy:
  "StartBurst sample_Scanf1 sample_Printf [''KEYB'', ''KEYA''] ''ls'' sample_table =
     ('''', sample_table)"
  by (simp add: StartBurst_def sample_table_def sample_Scanf1_def arg_def)

text \<open>
  The claim C8 as stated fails: with a valid session and no worker the body the
  caller receives is empty, not the busy sentence; and the handler that does call
  \<^verbatim>\<open>RunBurst\<close> writes an empty body as well when no container is idle.
\<close>

theorem Setup_run_busy_body_counterexample:
  "BurstSession sample_burst ''C1'' \<noteq> None \<and>
   takes_channel no_worker = None \<and>
   r_body (Setup_run one_second sample_burst
      (sample_request ''PUT'' ''/run?apikey=C1'' [''apikey'' \<mapsto> ''C1''] ''task'') no_worker) = '''' \<and>
   r_body (Setup_run one_second sample_burst
      (sample_request ''PUT'' ''/run?apikey=C1'' [''apikey'' \<mapsto> ''C1''] ''task'') no_worker)
     \<noteq> ''The system is busy. Please reload.'' \<and>
   fst (SetupBurstLambdaEndpoint_run sample_Scanf1 sample_Printf [''KEYB'', ''KEYA''] nobody
          (\<lambda>t. t) (sample_request ''PUT'' ''/run'' Map.empty ''ls'') sample_table) = ''''"
proof -
  have a: "Setup_run one_second sample_burst
      (sample_request ''PUT'' ''/run?apikey=C1'' [''apikey'' \<mapsto> ''C1''] ''task'') no_worker =
     \<lparr>r_status = 200, r_body = '''', r_collaborators = [],
      r_channel = [SendOnCode, SendInput ''task'', ReceiveOutput],
      r_elapsed = After one_second + After one_second + After (one_second + one_second),
      r_state = sample_burst\<rparr>"
    by (simp add: Setup_run_def Let_def select_after_def sample_burst_def sample_request_def
        lookup_def no_worker_def NoErrorString_def)
  have b: "RunBurst sample_Scanf1 sample_Printf [''KEYB'', ''KEYA''] nobody ''ls'' sample_table =
      ((''The system is busy. Please reload.'', ''''), sample_table)"
    using RunBurst_busy[of sample_Scanf1 sample_Printf "[''KEYB'', ''KEYA'']" "''ls''"
        sample_table nobody]
    by (simp add: sample_table_busy)
  have c: "GetBurst sample_Scanf1 sample_Printf ''The system is busy. Please reload.''
      sample_table = ('''', sample_table)"
    by (simp add: GetBurst_def sample_table_def)
  have d: "fst (SetupBurstLambdaEndpoint_run sample_Scanf1 sample_Printf [''KEYB'', ''KEYA'']
      nobody (\<lambda>t. t) (sample_request ''PUT'' ''/run'' Map.empty ''ls'') sample_table) = ''''"
    by (simp add: SetupBurstLambdaEndpoint_run_def Let_def NoErrorString_def sample_request_def
        b c)
  show ?thesis
    unfolding a using d by (simp add: sample_burst_def no_worker_def)
qed

section \<open>burst: the container table, properties\<close>
















section \<open>burst: the datagram receiver, properties\<close>

lemma acceptMessage_loop_accumulates:
  assumes "ReadFails \<notin> set reads"
    and "\<forall>k. 0 < k \<and> k \<le> length reads \<longrightarrow>
           \<not> IsMessageComplete Scanf1 (message rc @ received (take k reads))"
  shows "acceptMessage_loop Scanf1 handler (reads @ rest) rc =
         acceptMessage_loop Scanf1 handler rest (rc\<lparr>message := message rc @ received reads\<rparr>)"
  using assms
proof (induction reads arbitrary: rc)
  case Nil
  then show ?case by simp
next
  case (Cons rd reads)
  from Cons.prems(1) obtain bytes addr delivered where rd: "rd = Datagram bytes addr delivered"
    by (cases rd) auto
  have first: "\<not> IsMessageComplete Scanf1 (message rc @ take 1024 bytes)"
    using Cons.prems(2)[rule_format, of 1] by (simp add: rd)
  let ?rc = "rc\<lparr>message := message rc @ take 1024 bytes\<rparr>"
  have later: "\<forall>k. 0 < k \<and> k \<le> length reads \<longrightarrow>
      \<not> IsMessageComplete Scanf1 (message ?rc @ received (take k reads))"
  proof (intro allI impI)
    fix k assume "0 < k \<and> k \<le> length reads"
    then have "\<not> IsMessageComplete Scanf1 (message rc @ received (take (Suc k) (rd # reads)))"
      using Cons.prems(2)[rule_format, of "Suc k"] by simp
    then show "\<not> IsMessageComplete Scanf1 (message ?rc @ received (take k reads))"
      by (simp add: rd)
  qed
  have "ReadFails \<notin> set reads" using Cons.prems(1) by simp
  from Cons.IH[OF this later]
  have "acceptMessage_loop Scanf1 handler (reads @ rest) ?rc =
      acceptMessage_loop Scanf1 handler rest (?rc\<lparr>message := message ?rc @ received reads\<rparr>)" .
  then show ?case using first by (simp add: rd Let_def)
qed

lemma acceptMessage_loop_handled_complete:
  assumes "\<forall>m \<in> set (handled rc). IsMessageComplete Scanf1 m"
  shows "\<forall>m \<in> set (handled (acceptMessage_loop Scanf1 handler reads rc)).
           IsMessageComplete Scanf1 m"
  using assms
proof (induction reads arbitrary: rc)
  case Nil
  then show ?case by simp
next
  case (Cons rd reads)
  show ?case
  proof (cases rd)
    case ReadFails
    then show ?thesis using Cons.prems by simp
  next
    case (Datagram bytes addr delivered)
    define msg where "msg = message rc @ take 1024 bytes"
    define rc1 where "rc1 = rc\<lparr>message := [], handled := handled rc @ [msg]\<rparr>"
    define rc2 where "rc2 = rc1\<lparr>written := written rc1 @ [(handler msg, addr)]\<rparr>"
    have step: "acceptMessage_loop Scanf1 handler (rd # reads) rc =
        (if IsMessageComplete Scanf1 msg then
           (if handler msg \<noteq> [] then
              (if delivered then acceptMessage_loop Scanf1 handler reads rc2
               else rc2\<lparr>stopped := True\<rparr>)
            else acceptMessage_loop Scanf1 handler reads rc1)
         else acceptMessage_loop Scanf1 handler reads (rc\<lparr>message := msg\<rparr>))"
      unfolding Datagram msg_def rc1_def rc2_def by (simp add: Let_def)
    show ?thesis
    proof (cases "IsMessageComplete Scanf1 msg")
      case False
      have "\<forall>m \<in> set (handled (rc\<lparr>message := msg\<rparr>)). IsMessageComplete Scanf1 m"
        using Cons.prems by simp
      from Cons.IH[OF this] show ?thesis unfolding step using False by simp
    next
      case True
      have inv1: "\<forall>m \<in> set (handled rc1). IsMessageComplete Scanf1 m"
        using True Cons.prems by (simp add: rc1_def)
      then have inv2: "\<forall>m \<in> set (handled rc2). IsMessageComplete Scanf1 m"
        by (simp add: rc2_def)
      have inv3: "\<forall>m \<in> set (handled (rc2\<lparr>stopped := True\<rparr>)). IsMessageComplete Scanf1 m"
        using inv2 by simp
      show ?thesis
        unfolding step using True Cons.IH[OF inv1] Cons.IH[OF inv2] inv3 by simp
    qed
  qed
qed

text \<open>
  C2, as the code has it. Let the reads so far be datagrams whose accumulated
  bytes never passed \<^verbatim>\<open>IsMessageComplete\<close>, and let the next datagram complete
  them to "Message has started." + p + "Message has finished.", a buffer that
  passes the test. Then the handler is called once, with that whole buffer,
  sentinels included, and the buffer is empty afterwards; before the last
  datagram nothing was handled and the buffer held the bytes received. In every
  run, each argument the handler is called with passes \<^verbatim>\<open>IsMessageComplete\<close>.
\<close>

theorem acceptMessage_framing:
  assumes "ReadFails \<notin> set reads"
    and "\<forall>k. 0 < k \<and> k \<le> length reads \<longrightarrow>
           \<not> IsMessageComplete Scanf1 (received (take k reads))"
    and "received reads @ take 1024 bytes =
           ''Message has started.'' @ p @ ''Message has finished.''"
    and "IsMessageComplete Scanf1 (''Message has started.'' @ p @ ''Message has finished.'')"
  shows "handled (acceptMessage Scanf1 handler (reads @ [Datagram bytes addr delivered])) =
           [''Message has started.'' @ p @ ''Message has finished.''] \<and>
         message (acceptMessage Scanf1 handler (reads @ [Datagram bytes addr delivered])) = '''' \<and>
         handled (acceptMessage Scanf1 handler reads) = [] \<and>
         message (acceptMessage Scanf1 handler reads) = received reads \<and>
         (\<forall>m \<in> set (handled (acceptMessage Scanf1 handler any_reads)).
            IsMessageComplete Scanf1 m)"
proof -
  define rc0 where
    "rc0 = \<lparr>message = [], handled = [], written = [], stopped = False\<rparr>"
  define full where "full = ''Message has started.'' @ p @ ''Message has finished.''"
  have quiet: "\<forall>k. 0 < k \<and> k \<le> length reads \<longrightarrow>
      \<not> IsMessageComplete Scanf1 (message rc0 @ received (take k reads))"
    using assms(2) by (simp add: rc0_def)
  have acc: "acceptMessage_loop Scanf1 handler (reads @ rest) rc0 =
      acceptMessage_loop Scanf1 handler rest (rc0\<lparr>message := received reads\<rparr>)" for rest
    using acceptMessage_loop_accumulates[OF assms(1) quiet, of handler rest]
    by (simp add: rc0_def)
  have before: "acceptMessage Scanf1 handler reads = rc0\<lparr>message := received reads\<rparr>"
    using acc[of "[]"] by (simp add: acceptMessage_def rc0_def)
  have complete: "IsMessageComplete Scanf1 (received reads @ take 1024 bytes)"
    using assms(3,4) by simp
  have last: "acceptMessage Scanf1 handler (reads @ [Datagram bytes addr delivered]) =
      acceptMessage_loop Scanf1 handler [Datagram bytes addr delivered]
        (rc0\<lparr>message := received reads\<rparr>)"
    using acc[of "[Datagram bytes addr delivered]"] by (simp add: acceptMessage_def rc0_def)
  have h: "handled (acceptMessage_loop Scanf1 handler [Datagram bytes addr delivered]
        (rc0\<lparr>message := received reads\<rparr>)) = [received reads @ take 1024 bytes]"
    using complete by (simp add: Let_def rc0_def)
  have m: "message (acceptMessage_loop Scanf1 handler [Datagram bytes addr delivered]
        (rc0\<lparr>message := received reads\<rparr>)) = []"
    using complete by (simp add: Let_def rc0_def)
  have inv: "\<forall>m \<in> set (handled (acceptMessage Scanf1 handler any_reads)).
      IsMessageComplete Scanf1 m"
    unfolding acceptMessage_def by (rule acceptMessage_loop_handled_complete) simp
  show ?thesis
    unfolding last h m before using assms(3) inv by (simp add: rc0_def)
qed

lemma sample_partial_1: "\<not> IsMessageComplete sample_Scanf1 ''Message has started.''"
  by (simp add: IsMessageComplete_def sample_Scanf1_def)

lemma sample_partial_2: "\<not> IsMessageComplete sample_Scanf1 ''Message has started.hi''"
  by (simp add: IsMessageComplete_def sample_Scanf1_def)

lemma sample_complete:
  "IsMessageComplete sample_Scanf1 (''Message has started.'' @ ''hi'' @ ''Message has finished.'')"
  by (simp add: IsMessageComplete_def sample_Scanf1_def)

theorem acceptMessage_framing_witness:
  "handled (acceptMessage sample_Scanf1 sample_handler
      (sample_reads @ [Datagram ''Message has finished.'' ''10.0.0.9:4000'' True])) =
     [''Message has started.hiMessage has finished.''] \<and>
   message (acceptMessage sample_Scanf1 sample_handler
      (sample_reads @ [Datagram ''Message has finished.'' ''10.0.0.9:4000'' True])) = '''' \<and>
   handled (acceptMessage sample_Scanf1 sample_handler sample_reads) = [] \<and>
   message (acceptMessage sample_Scanf1 sample_handler sample_reads) = ''Message has started.hi''"
proof -
  have 1: "ReadFails \<notin> set sample_reads" by (simp add: sample_reads_def)
  have 2: "\<forall>k. 0 < k \<and> k \<le> length sample_reads \<longrightarrow>
      \<not> IsMessageComplete sample_Scanf1 (received (take k sample_reads))"
  proof (intro allI impI)
    fix k assume "0 < k \<and> k \<le> length sample_reads"
    then have "k = 1 \<or> k = 2" by (auto simp: sample_reads_def)
    then show "\<not> IsMessageComplete sample_Scanf1 (received (take k sample_reads))"
      using sample_partial_1 sample_partial_2 by (auto simp: sample_reads_def)
  qed
  have 3: "received sample_reads @ take 1024 ''Message has finished.'' =
      ''Message has started.'' @ ''hi'' @ ''Message has finished.''"
    by (simp add: sample_reads_def)
  have r: "received sample_reads = ''Message has started.hi''"
    by (simp add: sample_reads_def)
  show ?thesis
    using acceptMessage_framing[OF 1 2 3 sample_complete, of sample_handler
        "''10.0.0.9:4000''" True] r
    by simp
qed

text \<open>
  The claim C2 as stated (the handler is given exactly the payload) fails: for
  the payload "hi" sent in three datagrams the handler is called with the whole
  framed buffer.
\<close>

theorem acceptMessage_framing_counterexample:
  "received (sample_reads @ [Datagram ''Message has finished.'' ''10.0.0.9:4000'' True]) =
     ''Message has started.'' @ ''hi'' @ ''Message has finished.'' \<and>
   handled (acceptMessage sample_Scanf1 sample_handler
      (sample_reads @ [Datagram ''Message has finished.'' ''10.0.0.9:4000'' True])) =
     [''Message has started.hiMessage has finished.''] \<and>
   handled (acceptMessage sample_Scanf1 sample_handler
      (sample_reads @ [Datagram ''Message has finished.'' ''10.0.0.9:4000'' True])) \<noteq> [''hi'']"
proof -
  have c: "IsMessageComplete sample_Scanf1 ''Message has started.hiMessage has finished.''"
    using sample_complete by simp
  have "handled (acceptMessage sample_Scanf1 sample_handler
      (sample_reads @ [Datagram ''Message has finished.'' ''10.0.0.9:4000'' True])) =
     [''Message has started.hiMessage has finished.'']"
    using sample_partial_1 sample_partial_2 c
    by (simp add: acceptMessage_def sample_reads_def Let_def sample_handler_def)
  then show ?thesis by (simp add: sample_reads_def)
qed

end
